theory Spec2Isabelle
  imports Main "HOL-Library.Multiset"
begin

section \<open>JavaScript dates and numbers\<close>

text \<open>
  A JavaScript \<open>Date\<close> holds a time value: an integral number of milliseconds since
  1970-01-01T00:00:00Z, or NaN for an Invalid Date. The route handlers build one Date per
  progress document with \<open>new Date(p.completedAt ?? "")\<close>; that constructor belongs to
  the runtime, so it is the parameter \<open>newDate\<close> of the model, returning \<open>None\<close> for an
  Invalid Date and \<open>Some t\<close> for the time value \<open>t\<close>.

  The local time zone is the runtime's: the parameter \<open>tza\<close> gives, for each instant, the
  offset from UTC in milliseconds that is in force at that instant (ECMAScript's
  LocalTZA), so a zone with daylight-saving time is a function that is not constant. The
  calendar accessors follow ECMAScript: they read the local time \<open>t + tza t\<close> and depend
  on its day number \<open>Day (LocalTime tza t)\<close> only.

  Numbers: \<open>Math.round(x)\<close> is \<open>floor (x + 1/2)\<close>. The quotient of two integers is kept
  exact here, which is what the double computation yields for differences below
  \<open>2^26\<close> days.
\<close>

definition msPerDay :: int where
  "msPerDay = 1000 * 60 * 60 * 24"

definition Math_round_div :: "int \<Rightarrow> int \<Rightarrow> int" where
  \<comment> \<open>\<open>Math.round(a / b)\<close> for a positive divisor \<open>b\<close>\<close>
  "Math_round_div a b = (2 * a + b) div (2 * b)"

definition LocalTime :: "(int \<Rightarrow> int) \<Rightarrow> int \<Rightarrow> int" where
  "LocalTime tza t = t + tza t"

definition Day :: "int \<Rightarrow> int" where
  "Day t = t div msPerDay"

definition localDay :: "(int \<Rightarrow> int) \<Rightarrow> int \<Rightarrow> int" where
  "localDay tza t = Day (LocalTime tza t)"

text \<open>
  Proleptic Gregorian calendar date of a day number (days since 1970-01-01), by the
  usual era / year-of-era / day-of-year decomposition with years starting on 1 March.
  The result is (year, month 1..12, day of month 1..31).
\<close>

definition civil_from_days :: "int \<Rightarrow> int \<times> int \<times> int" where
  "civil_from_days z0 =
     (let z = z0 + 719468;
          era = z div 146097;
          doe = z mod 146097;
          yoe = (doe - doe div 1460 + doe div 36524 - doe div 146096) div 365;
          y = yoe + era * 400;
          doy = doe - (365 * yoe + yoe div 4 - yoe div 100);
          mp = (5 * doy + 2) div 153;
          d = doy - (153 * mp + 2) div 5 + 1;
          m = (if mp < 10 then mp + 3 else mp - 9)
      in (if m \<le> 2 then y + 1 else y, m, d))"

definition getFullYear :: "(int \<Rightarrow> int) \<Rightarrow> int \<Rightarrow> int" where
  "getFullYear tza t = fst (civil_from_days (localDay tza t))"

definition getMonth :: "(int \<Rightarrow> int) \<Rightarrow> int \<Rightarrow> int" where
  \<comment> \<open>months are numbered from 0\<close>
  "getMonth tza t = fst (snd (civil_from_days (localDay tza t))) - 1"

definition getDate :: "(int \<Rightarrow> int) \<Rightarrow> int \<Rightarrow> int" where
  "getDate tza t = snd (snd (civil_from_days (localDay tza t)))"

section \<open>GET /api/progress/stats/:userId\<close>

text \<open>
  \<open>progressDocs.map((p) => new Date(p.completedAt ?? "")).filter((d) => !isNaN(d.getTime()))
  .sort((a, b) => a.getTime() - b.getTime())\<close>. Dates with equal time values cannot be told
  apart by anything the handler reads, so the sorted array is the sorted list of time values.
\<close>

definition parse_dates :: "('doc \<Rightarrow> int option) \<Rightarrow> 'doc list \<Rightarrow> int list" where
  "parse_dates newDate progressDocs =
     sort (map the (filter (\<lambda>d. d \<noteq> None) (map newDate progressDocs)))"

text \<open>
  The current-streak loop \<open>for (let i = dates.length - 1; i > 0; i--)\<close>: the second
  argument is the loop index \<open>i\<close>, the third the counter.
\<close>

fun currentStreak_loop :: "int list \<Rightarrow> nat \<Rightarrow> nat \<Rightarrow> nat" where
  "currentStreak_loop dates 0 currentStreak = currentStreak"
| "currentStreak_loop dates (Suc j) currentStreak =
     (let diffDays = Math_round_div (dates ! Suc j - dates ! j) msPerDay
      in if diffDays = 1 then currentStreak_loop dates j (currentStreak + 1)
         else if diffDays = 0 then currentStreak_loop dates j currentStreak
         else currentStreak)"

definition compute_currentStreak :: "int list \<Rightarrow> nat" where
  "compute_currentStreak dates =
     (if dates \<noteq> [] then currentStreak_loop dates (length dates - 1) 1 else 0)"

text \<open>
  One iteration of the longest-streak loop at index \<open>i\<close>, on the pair
  \<open>(longestStreak, run)\<close>; the loop runs it for \<open>i = 0, \<dots>, dates.length - 1\<close>, and a last
  \<open>Math.max\<close> follows.
\<close>

fun longestStreak_step :: "int list \<Rightarrow> nat \<Rightarrow> nat \<times> nat \<Rightarrow> nat \<times> nat" where
  "longestStreak_step dates i (longestStreak, run) =
     (if i = 0 then (longestStreak, 1)
      else (let diff = Math_round_div (dates ! i - dates ! (i - 1)) msPerDay
            in if diff = 1 then (longestStreak, run + 1)
               else if diff = 0 then (longestStreak, run)
               else (max longestStreak run, 1)))"

definition longestStreak_loop :: "int list \<Rightarrow> nat \<times> nat" where
  "longestStreak_loop dates = fold (longestStreak_step dates) [0..<length dates] (0, 0)"

definition compute_longestStreak :: "int list \<Rightarrow> nat" where
  "compute_longestStreak dates =
     (case longestStreak_loop dates of (longestStreak, run) \<Rightarrow> max longestStreak run)"

definition isSameDay :: "(int \<Rightarrow> int) \<Rightarrow> int \<Rightarrow> int \<Rightarrow> bool" where
  "isSameDay tza a b \<longleftrightarrow>
     getFullYear tza a = getFullYear tza b \<and>
     getMonth tza a = getMonth tza b \<and>
     getDate tza a = getDate tza b"

text \<open>
  \<open>monthDates[0]\<close> is \<open>undefined\<close> (falsy) for an empty array and a Date object (truthy)
  otherwise.
\<close>

definition compute_isFirstOfMonth :: "(int \<Rightarrow> int) \<Rightarrow> int list \<Rightarrow> int \<Rightarrow> bool" where
  "compute_isFirstOfMonth tza dates now =
     (let currentMonth = getMonth tza now;
          currentYear = getFullYear tza now;
          monthDates = filter (\<lambda>d. getMonth tza d = currentMonth \<and>
                                     getFullYear tza d = currentYear) dates
      in case monthDates of
           [] \<Rightarrow> False
         | firstOfMonth # _ \<Rightarrow> isSameDay tza firstOfMonth now)"

record StreakResult =
  currentStreak :: nat
  longestStreak :: nat
  isFirstOfMonth :: bool

definition computeStreaks ::
  "('doc \<Rightarrow> int option) \<Rightarrow> (int \<Rightarrow> int) \<Rightarrow> 'doc list \<Rightarrow> int \<Rightarrow> StreakResult" where
  "computeStreaks newDate tza progressDocs now =
     (let dates = parse_dates newDate progressDocs
      in \<lparr> currentStreak = compute_currentStreak dates,
           longestStreak = compute_longestStreak dates,
           isFirstOfMonth = compute_isFirstOfMonth tza dates now \<rparr>)"

text \<open>
  The handler itself: without a database connection it answers 500 before anything is
  computed; \<open>db\<close> is \<open>None\<close> then, and otherwise holds the user's progress documents.
\<close>

datatype 'a response = Status nat string | Json 'a

definition get_progress_stats ::
  "('doc \<Rightarrow> int option) \<Rightarrow> (int \<Rightarrow> int) \<Rightarrow> 'doc list option \<Rightarrow> int \<Rightarrow>
     StreakResult response" where
  "get_progress_stats newDate tza db now =
     (case db of
        None \<Rightarrow> Status 500 ''Database not available''
      | Some progressDocs \<Rightarrow> Json (computeStreaks newDate tza progressDocs now))"

section \<open>POST /api/progress\<close>

text \<open>
  The streak and first-of-month part of the handler, on the user's whole history
  \<open>allProgress\<close> (the new entry included); written out a second time in the source.
\<close>

fun streak_loop :: "int list \<Rightarrow> nat \<Rightarrow> nat \<Rightarrow> nat" where
  "streak_loop dates 0 streak = streak"
| "streak_loop dates (Suc j) streak =
     (let diffDays = Math_round_div (dates ! Suc j - dates ! j) msPerDay
      in if diffDays = 1 then streak_loop dates j (streak + 1)
         else if diffDays = 0 then streak_loop dates j streak
         else streak)"

definition post_streak :: "int list \<Rightarrow> nat" where
  "post_streak dates =
     (if dates \<noteq> [] then streak_loop dates (length dates - 1) 1 else 0)"

definition post_isFirstOfMonth :: "(int \<Rightarrow> int) \<Rightarrow> int list \<Rightarrow> int \<Rightarrow> bool" where
  "post_isFirstOfMonth tza dates now =
     (let currentMonth = getMonth tza now;
          currentYear = getFullYear tza now;
          monthDates = filter (\<lambda>d. getMonth tza d = currentMonth \<and>
                                     getFullYear tza d = currentYear) dates
      in case monthDates of
           [] \<Rightarrow> False
         | firstOfMonth # _ \<Rightarrow>
             getFullYear tza firstOfMonth = getFullYear tza now \<and>
             getMonth tza firstOfMonth = getMonth tza now \<and>
             getDate tza firstOfMonth = getDate tza now)"

definition post_progress_streak ::
  "('doc \<Rightarrow> int option) \<Rightarrow> (int \<Rightarrow> int) \<Rightarrow> 'doc list \<Rightarrow> int \<Rightarrow> nat \<times> bool" where
  "post_progress_streak newDate tza allProgress now =
     (let dates = parse_dates newDate allProgress
      in (post_streak dates, post_isFirstOfMonth tza dates now))"

section \<open>Notions used in the statements and proofs\<close>

text \<open>
  The rounded day differences of adjacent dates, in array order; both streak loops read
  nothing else of \<open>dates\<close>. \<open>walk_back\<close> is the current-streak loop on the reversed
  list of differences, \<open>run_step\<close> one iteration of the longest-streak loop after the
  first.
\<close>

definition day_diffs :: "int list \<Rightarrow> int list" where
  "day_diffs dates =
     map (\<lambda>i. Math_round_div (dates ! Suc i - dates ! i) msPerDay) [0..<length dates - 1]"

fun walk_back :: "int list \<Rightarrow> nat \<Rightarrow> nat" where
  "walk_back [] acc = acc"
| "walk_back (d # ds) acc =
     (if d = 1 then walk_back ds (acc + 1) else if d = 0 then walk_back ds acc else acc)"

fun run_step :: "int \<Rightarrow> nat \<times> nat \<Rightarrow> nat \<times> nat" where
  "run_step d (l, r) =
     (if d = 1 then (l, r + 1) else if d = 0 then (l, r) else (max l r, 1))"

text \<open>
  The time values of the valid events of a history, and the test that the handlers apply
  to keep the dates of the current month.
\<close>

definition event_times :: "('doc \<Rightarrow> int option) \<Rightarrow> 'doc list \<Rightarrow> int set" where
  "event_times newDate progressDocs = {t. \<exists>p \<in> set progressDocs. newDate p = Some t}"

definition inMonth :: "(int \<Rightarrow> int) \<Rightarrow> int \<Rightarrow> int \<Rightarrow> bool" where
  "inMonth tza now d \<longleftrightarrow>
     getMonth tza d = getMonth tza now \<and> getFullYear tza d = getFullYear tza now"

text \<open>
  Time zones of the examples. \<open>UTC\<close> has offset 0 throughout. \<open>New_York_2024\<close> is
  America/New_York around the end of daylight-saving time on 2024-11-03 at 06:00 UTC
  (02:00 at UTC-4 becomes 01:00 at UTC-5). \<open>St_Johns_2010\<close> is America/St_Johns around
  the end of daylight-saving time on 2010-11-07 at 02:31 UTC: 00:01 at UTC-2:30 becomes
  23:01 of the day before at UTC-3:30, so the local calendar day goes back.
\<close>

definition UTC :: "int \<Rightarrow> int" where
  "UTC t = 0"

definition New_York_2024 :: "int \<Rightarrow> int" where
  "New_York_2024 t = (if t < 1730613600000 then - 14400000 else - 18000000)"

definition St_Johns_2010 :: "int \<Rightarrow> int" where
  "St_Johns_2010 t = (if t < 1289097060000 then - 9000000 else - 12600000)"

section \<open>Empty history\<close>

lemma parse_dates_Nil: "parse_dates newDate [] = []"
  by (simp add: parse_dates_def)

text \<open>
  C4. For every reference time \<open>now\<close>, the computation on an empty event list returns
  currentStreak = 0, longestStreak = 0 and isFirstOfMonth = false.
\<close>

theorem computeStreaks_empty:
  "computeStreaks newDate tza [] now =
     \<lparr> currentStreak = 0, longestStreak = 0, isFirstOfMonth = False \<rparr>"
  by (simp add: computeStreaks_def parse_dates_Nil compute_currentStreak_def
      compute_longestStreak_def longestStreak_loop_def compute_isFirstOfMonth_def)

section \<open>The two loops on the list of day differences\<close>

lemma length_day_diffs: "length (day_diffs dates) = length dates - 1"
  by (simp add: day_diffs_def)

lemma nth_day_diffs:
  "Suc i < length dates \<Longrightarrow>
     day_diffs dates ! i = Math_round_div (dates ! Suc i - dates ! i) msPerDay"
proof -
  assume "Suc i < length dates"
  then have "i < length [0..<length dates - 1]" by simp
  then show ?thesis unfolding day_diffs_def by (simp only: nth_map nth_upt) simp
qed

lemma currentStreak_loop_walk_back:
  "j < length dates \<Longrightarrow>
     currentStreak_loop dates j acc = walk_back (rev (take j (day_diffs dates))) acc"
proof (induction j arbitrary: acc)
  case 0
  then show ?case by simp
next
  case (Suc j)
  then have "j < length (day_diffs dates)" by (simp add: length_day_diffs)
  then have "take (Suc j) (day_diffs dates) = take j (day_diffs dates) @ [day_diffs dates ! j]"
    by (rule take_Suc_conv_app_nth)
  with Suc show ?case by (simp add: nth_day_diffs Let_def)
qed

lemma longestStreak_fold_run_step:
  "n < length dates \<Longrightarrow>
     fold (longestStreak_step dates) [0..<Suc n] (0, 0) =
     fold run_step (take n (day_diffs dates)) (0, 1)"
proof (induction n)
  case 0
  then show ?case by simp
next
  case (Suc n)
  then have "n < length (day_diffs dates)" by (simp add: length_day_diffs)
  then have t: "take (Suc n) (day_diffs dates) = take n (day_diffs dates) @ [day_diffs dates ! n]"
    by (rule take_Suc_conv_app_nth)
  obtain l r where lr: "fold run_step (take n (day_diffs dates)) (0, 1) = (l, r)"
    by (cases "fold run_step (take n (day_diffs dates)) (0, 1)")
  from Suc have IH: "fold (longestStreak_step dates) [0..<Suc n] (0, 0) = (l, r)"
    by (simp only: lr Suc_lessD)
  have "[0..<Suc (Suc n)] = [0..<Suc n] @ [Suc n]" by simp
  then have "fold (longestStreak_step dates) [0..<Suc (Suc n)] (0, 0) =
      longestStreak_step dates (Suc n) (l, r)"
    by (simp only: fold_append o_apply IH fold_simps)
  moreover have "fold run_step (take (Suc n) (day_diffs dates)) (0, 1) =
      run_step (day_diffs dates ! n) (l, r)"
    by (simp only: t fold_append o_apply lr fold_simps)
  ultimately show ?case using Suc.prems by (simp add: nth_day_diffs Let_def)
qed

lemma walk_back_Suc: "walk_back ds (Suc acc) = Suc (walk_back ds acc)"
  by (induction ds arbitrary: acc) simp_all

lemma fold_run_step_snd: "snd (fold run_step ds (l, Suc 0)) = walk_back (rev ds) (Suc 0)"
proof (induction ds rule: rev_induct)
  case Nil
  then show ?case by simp
next
  case (snoc d ds)
  obtain l' r' where lr: "fold run_step ds (l, Suc 0) = (l', r')"
    by (cases "fold run_step ds (l, Suc 0)")
  with snoc have r': "r' = walk_back (rev ds) (Suc 0)" by simp
  show ?case using lr r' by (simp add: walk_back_Suc)
qed

lemma compute_currentStreak_walk_back:
  "dates \<noteq> [] \<Longrightarrow> compute_currentStreak dates = walk_back (rev (day_diffs dates)) 1"
  by (simp add: compute_currentStreak_def currentStreak_loop_walk_back length_day_diffs)

lemma longestStreak_loop_run_step:
  "dates \<noteq> [] \<Longrightarrow> longestStreak_loop dates = fold run_step (day_diffs dates) (0, 1)"
  using longestStreak_fold_run_step [of "length dates - 1" dates]
  by (simp add: longestStreak_loop_def length_day_diffs)

lemma final_run_is_currentStreak:
  "dates \<noteq> [] \<Longrightarrow> snd (longestStreak_loop dates) = compute_currentStreak dates"
  by (simp add: longestStreak_loop_run_step compute_currentStreak_walk_back fold_run_step_snd)

lemma longest_ge_current: "compute_currentStreak dates \<le> compute_longestStreak dates"
proof (cases "dates = []")
  case True
  then show ?thesis by (simp add: compute_currentStreak_def)
next
  case False
  obtain l r where lr: "longestStreak_loop dates = (l, r)"
    by (cases "longestStreak_loop dates")
  with final_run_is_currentStreak [OF False] have "r = compute_currentStreak dates" by simp
  then show ?thesis by (simp add: compute_longestStreak_def lr)
qed

lemma streak_loop_eq: "streak_loop dates j s = currentStreak_loop dates j s"
  by (induction j arbitrary: s) (simp_all add: Let_def)

section \<open>The trailing run is the current streak\<close>

lemma final_run_eq_currentStreak:
  "snd (longestStreak_loop dates) = compute_currentStreak dates"
proof (cases "dates = []")
  case True
  then show ?thesis by (simp add: longestStreak_loop_def compute_currentStreak_def)
next
  case False
  then show ?thesis by (rule final_run_is_currentStreak)
qed

text \<open>
  C9. For every history and reference time, currentStreak \<open>\<le>\<close> longestStreak, and both are
  non-negative (they are counters that start at 0 and are only incremented, modelled as
  natural numbers). The reason is the one the claim gives: the run that the forward walk
  holds when it ends is the current streak, and it enters the final maximum.
\<close>

theorem longestStreak_ge_currentStreak:
  "currentStreak (computeStreaks newDate tza progressDocs now) \<le>
     longestStreak (computeStreaks newDate tza progressDocs now) \<and>
   0 \<le> currentStreak (computeStreaks newDate tza progressDocs now) \<and>
   snd (longestStreak_loop (parse_dates newDate progressDocs)) =
     currentStreak (computeStreaks newDate tza progressDocs now)"
  by (simp add: computeStreaks_def Let_def longest_ge_current final_run_eq_currentStreak)

section \<open>Order of the events, invalid dates, the reference time\<close>

lemma sort_cong_mset: "mset xs = mset ys \<Longrightarrow> sort xs = sort (ys :: int list)"
  by (rule properties_for_sort) simp_all

lemma parse_dates_mset:
  assumes "mset (map newDate progressDocs) = mset (map newDate progressDocs')"
  shows "parse_dates newDate progressDocs = parse_dates newDate progressDocs'"
proof -
  have "mset (map the (filter (\<lambda>d. d \<noteq> None) (map newDate progressDocs))) =
        mset (map the (filter (\<lambda>d. d \<noteq> None) (map newDate progressDocs')))"
    using assms by (simp only: mset_map mset_filter)
  then show ?thesis unfolding parse_dates_def by (rule sort_cong_mset)
qed

text \<open>
  C2. Permuting the events does not change the result: the result is a function of the
  multiset of the events' parsed timestamps only (the dates are sorted before any walk).
\<close>

theorem computeStreaks_permutation:
  "mset (map newDate progressDocs) = mset (map newDate progressDocs') \<Longrightarrow>
     computeStreaks newDate tza progressDocs now = computeStreaks newDate tza progressDocs' now"
  unfolding computeStreaks_def by (drule parse_dates_mset) (simp only:)

theorem computeStreaks_permutation_witness:
  "mset (map id [Some 1709337600000, None, Some (1709251200000::int)]) =
     mset (map id [None, Some 1709251200000, Some 1709337600000]) \<and>
   computeStreaks id UTC [Some 1709337600000, None, Some 1709251200000] 1709337600000 =
     computeStreaks id UTC [None, Some 1709251200000, Some 1709337600000] 1709337600000"
proof -
  have h: "mset (map id [Some 1709337600000, None, Some (1709251200000::int)]) =
     mset (map id [None, Some 1709251200000, Some 1709337600000])"
    by simp
  from h computeStreaks_permutation [OF h] show ?thesis by (rule conjI)
qed






section \<open>The two endpoints\<close>

lemma post_streak_eq: "post_streak dates = compute_currentStreak dates"
  by (simp add: post_streak_def compute_currentStreak_def streak_loop_eq)

lemma post_isFirstOfMonth_eq:
  "post_isFirstOfMonth tza dates now = compute_isFirstOfMonth tza dates now"
  by (simp add: post_isFirstOfMonth_def compute_isFirstOfMonth_def isSameDay_def Let_def
      split: list.split)

text \<open>
  C10. The streak and first-of-month logic of POST /api/progress computes the same values
  as the one of GET /api/progress/stats/:userId, on every list of dates and every
  reference time, hence on every history.
\<close>

theorem streak_logic_duplicated:
  "post_streak dates = compute_currentStreak dates \<and>
   post_isFirstOfMonth tza dates now = compute_isFirstOfMonth tza dates now \<and>
   post_progress_streak newDate tza progressDocs now =
     (currentStreak (computeStreaks newDate tza progressDocs now),
      isFirstOfMonth (computeStreaks newDate tza progressDocs now))"
  by (simp add: post_streak_eq post_isFirstOfMonth_eq
      post_progress_streak_def computeStreaks_def Let_def)

section \<open>First of the month\<close>

lemma set_parse_dates: "set (parse_dates newDate progressDocs) = event_times newDate progressDocs"
  by (force simp: parse_dates_def event_times_def image_iff)

lemma sorted_parse_dates: "sorted (parse_dates newDate progressDocs)"
  by (simp add: parse_dates_def)

lemma isSameDay_localDay:
  "localDay tza a = localDay tza b \<Longrightarrow> isSameDay tza a c = isSameDay tza b c"
  by (simp add: isSameDay_def getFullYear_def getMonth_def getDate_def)

text \<open>
  What the handler computes on sorted dates: either no date lies in the month of \<open>now\<close> and
  the flag is false, or the flag is the same-day test of \<open>now\<close> and the date \<open>f\<close> of the
  month with the least time value.
\<close>

lemma compute_isFirstOfMonth_cases:
  assumes "sorted dates"
  shows "((\<forall>d \<in> set dates. \<not> inMonth tza now d) \<and> \<not> compute_isFirstOfMonth tza dates now) \<or>
     (\<exists>f \<in> set dates. inMonth tza now f \<and>
        (\<forall>d' \<in> set dates. inMonth tza now d' \<longrightarrow> f \<le> d') \<and>
        compute_isFirstOfMonth tza dates now = isSameDay tza f now)"
proof (cases "filter (inMonth tza now) dates")
  case Nil
  then have "\<forall>d \<in> set dates. \<not> inMonth tza now d"
    by (simp add: filter_empty_conv)
  moreover have "\<not> compute_isFirstOfMonth tza dates now"
    using Nil by (simp add: compute_isFirstOfMonth_def inMonth_def [abs_def])
  ultimately show ?thesis by blast
next
  case (Cons f rest)
  have val: "compute_isFirstOfMonth tza dates now = isSameDay tza f now"
    using Cons by (simp add: compute_isFirstOfMonth_def inMonth_def [abs_def])
  have "f \<in> set (filter (inMonth tza now) dates)" by (simp add: Cons)
  then have f: "f \<in> set dates" "inMonth tza now f" by simp_all
  have "sorted (filter (inMonth tza now) dates)" using assms by (rule sorted_wrt_filter)
  then have rest: "\<forall>x \<in> set rest. f \<le> x" by (simp add: Cons)
  have least: "\<forall>d' \<in> set dates. inMonth tza now d' \<longrightarrow> f \<le> d'"
  proof (intro ballI impI)
    fix d' assume "d' \<in> set dates" "inMonth tza now d'"
    then have "d' \<in> set (filter (inMonth tza now) dates)" by simp
    then have "d' = f \<or> d' \<in> set rest" by (simp add: Cons)
    with rest show "f \<le> d'" by auto
  qed
  from f least val show ?thesis by blast
qed

lemma compute_isFirstOfMonth_first_event:
  assumes "sorted dates"
  shows "compute_isFirstOfMonth tza dates now \<longleftrightarrow>
     (\<exists>d \<in> set dates. inMonth tza now d \<and>
        (\<forall>d' \<in> set dates. inMonth tza now d' \<longrightarrow> d \<le> d') \<and>
        isSameDay tza d now)"
  using compute_isFirstOfMonth_cases [OF assms, of tza now]
proof (elim disjE conjE bexE)
  assume "\<forall>d \<in> set dates. \<not> inMonth tza now d" "\<not> compute_isFirstOfMonth tza dates now"
  then show ?thesis by blast
next
  fix f
  assume f: "f \<in> set dates" "inMonth tza now f"
    "\<forall>d' \<in> set dates. inMonth tza now d' \<longrightarrow> f \<le> d'"
    and val: "compute_isFirstOfMonth tza dates now = isSameDay tza f now"
  show ?thesis
  proof
    assume "compute_isFirstOfMonth tza dates now"
    with val f show "\<exists>d \<in> set dates. inMonth tza now d \<and>
        (\<forall>d' \<in> set dates. inMonth tza now d' \<longrightarrow> d \<le> d') \<and> isSameDay tza d now"
      by blast
  next
    assume "\<exists>d \<in> set dates. inMonth tza now d \<and>
        (\<forall>d' \<in> set dates. inMonth tza now d' \<longrightarrow> d \<le> d') \<and> isSameDay tza d now"
    then obtain d where d: "d \<in> set dates" "inMonth tza now d"
        "\<forall>d' \<in> set dates. inMonth tza now d' \<longrightarrow> d \<le> d'" "isSameDay tza d now"
      by blast
    from d(3) f(1,2) have "d \<le> f" by blast
    moreover from f(3) d(1,2) have "f \<le> d" by blast
    ultimately have "d = f" by simp
    with d(4) val show "compute_isFirstOfMonth tza dates now" by simp
  qed
qed

lemma compute_isFirstOfMonth_earliest_day:
  assumes "sorted dates"
    and mono: "\<forall>a \<in> set dates. \<forall>b \<in> set dates. a \<le> b \<longrightarrow> localDay tza a \<le> localDay tza b"
  shows "compute_isFirstOfMonth tza dates now \<longleftrightarrow>
     (\<exists>d \<in> set dates. inMonth tza now d \<and>
        (\<forall>d' \<in> set dates. inMonth tza now d' \<longrightarrow> localDay tza d \<le> localDay tza d') \<and>
        isSameDay tza d now)"
  using compute_isFirstOfMonth_cases [OF assms(1), of tza now]
proof (elim disjE conjE bexE)
  assume "\<forall>d \<in> set dates. \<not> inMonth tza now d" "\<not> compute_isFirstOfMonth tza dates now"
  then show ?thesis by blast
next
  fix f
  assume f: "f \<in> set dates" "inMonth tza now f"
    "\<forall>d' \<in> set dates. inMonth tza now d' \<longrightarrow> f \<le> d'"
    and val: "compute_isFirstOfMonth tza dates now = isSameDay tza f now"
  have first: "\<forall>d' \<in> set dates. inMonth tza now d' \<longrightarrow> localDay tza f \<le> localDay tza d'"
    using f(1,3) mono by blast
  show ?thesis
  proof
    assume "compute_isFirstOfMonth tza dates now"
    with val f(1,2) first show "\<exists>d \<in> set dates. inMonth tza now d \<and>
        (\<forall>d' \<in> set dates. inMonth tza now d' \<longrightarrow> localDay tza d \<le> localDay tza d') \<and>
        isSameDay tza d now"
      by blast
  next
    assume "\<exists>d \<in> set dates. inMonth tza now d \<and>
        (\<forall>d' \<in> set dates. inMonth tza now d' \<longrightarrow> localDay tza d \<le> localDay tza d') \<and>
        isSameDay tza d now"
    then obtain d where d: "d \<in> set dates" "inMonth tza now d"
        "\<forall>d' \<in> set dates. inMonth tza now d' \<longrightarrow> localDay tza d \<le> localDay tza d'"
        "isSameDay tza d now"
      by blast
    from d(3) f(1,2) have "localDay tza d \<le> localDay tza f" by blast
    moreover from first d(1,2) have "localDay tza f \<le> localDay tza d" by blast
    ultimately have "localDay tza f = localDay tza d" by simp
    then have "isSameDay tza f now = isSameDay tza d now" by (rule isSameDay_localDay)
    with d(4) val show "compute_isFirstOfMonth tza dates now" by simp
  qed
qed

lemma first_of_month_false_example:
  "computeStreaks id UTC [Some 1711929600000, Some 1713139200000] 1713139200000 =
     \<lparr> currentStreak = 1, longestStreak = 1, isFirstOfMonth = False \<rparr>"
  by code_simp

lemma event_times_map_Some: "event_times id (map Some ts) = set ts"
  by (auto simp: event_times_def)

lemma new_york_example:
  "inMonth New_York_2024 1730694600000 1730608200000 \<and>
   inMonth New_York_2024 1730694600000 1730694600000 \<and>
   isSameDay New_York_2024 1730608200000 1730694600000 \<and>
   localDay New_York_2024 1730608200000 = 20030 \<and>
   localDay New_York_2024 1730694600000 = 20030"
  by code_simp

text \<open>
  C6. isFirstOfMonth is true if and only if some event lies in \<open>now\<close>'s calendar month and
  year and the earliest such event lies on \<open>now\<close>'s calendar day (year, month and day all
  matching). Whenever the local calendar day does not go back from an earlier event to a
  later one, that is: the earliest such event day is \<open>now\<close>'s calendar day. The flag is
  false in particular when no event lies in \<open>now\<close>'s month, and for \<open>now\<close> = 2024-04-15 with
  events on 2024-04-01 and 2024-04-15.
\<close>

theorem isFirstOfMonth_iff:
  "(isFirstOfMonth (computeStreaks newDate tza progressDocs now) \<longleftrightarrow>
     (\<exists>d \<in> event_times newDate progressDocs. inMonth tza now d \<and>
        (\<forall>d' \<in> event_times newDate progressDocs. inMonth tza now d' \<longrightarrow> d \<le> d') \<and>
        isSameDay tza d now)) \<and>
   ((\<forall>a \<in> event_times newDate progressDocs. \<forall>b \<in> event_times newDate progressDocs.
        a \<le> b \<longrightarrow> localDay tza a \<le> localDay tza b) \<longrightarrow>
    (isFirstOfMonth (computeStreaks newDate tza progressDocs now) \<longleftrightarrow>
     (\<exists>d \<in> event_times newDate progressDocs. inMonth tza now d \<and>
        (\<forall>d' \<in> event_times newDate progressDocs.
            inMonth tza now d' \<longrightarrow> localDay tza d \<le> localDay tza d') \<and>
        isSameDay tza d now))) \<and>
   \<not> isFirstOfMonth
       (computeStreaks id UTC [Some 1711929600000, Some 1713139200000] 1713139200000)"
proof (intro conjI impI)
  show "\<not> isFirstOfMonth
       (computeStreaks id UTC [Some 1711929600000, Some 1713139200000] 1713139200000)"
    by (simp only: first_of_month_false_example StreakResult.simps) simp
  have flag: "isFirstOfMonth (computeStreaks newDate tza progressDocs now) =
      compute_isFirstOfMonth tza (parse_dates newDate progressDocs) now"
    by (simp add: computeStreaks_def Let_def)
  show "isFirstOfMonth (computeStreaks newDate tza progressDocs now) \<longleftrightarrow>
     (\<exists>d \<in> event_times newDate progressDocs. inMonth tza now d \<and>
        (\<forall>d' \<in> event_times newDate progressDocs. inMonth tza now d' \<longrightarrow> d \<le> d') \<and>
        isSameDay tza d now)"
    using compute_isFirstOfMonth_first_event [OF sorted_parse_dates, of tza newDate progressDocs now]
    by (simp only: set_parse_dates flag)
  assume "\<forall>a \<in> event_times newDate progressDocs. \<forall>b \<in> event_times newDate progressDocs.
        a \<le> b \<longrightarrow> localDay tza a \<le> localDay tza b"
  then have "\<forall>a \<in> set (parse_dates newDate progressDocs).
      \<forall>b \<in> set (parse_dates newDate progressDocs). a \<le> b \<longrightarrow> localDay tza a \<le> localDay tza b"
    by (simp only: set_parse_dates)
  from compute_isFirstOfMonth_earliest_day [OF sorted_parse_dates this, of now]
  show "isFirstOfMonth (computeStreaks newDate tza progressDocs now) \<longleftrightarrow>
     (\<exists>d \<in> event_times newDate progressDocs. inMonth tza now d \<and>
        (\<forall>d' \<in> event_times newDate progressDocs.
            inMonth tza now d' \<longrightarrow> localDay tza d \<le> localDay tza d') \<and>
        isSameDay tza d now)"
    by (simp only: set_parse_dates flag)
qed

text \<open>
  In New York on 2024-11-03, the day daylight-saving time ends: an event at 00:30 (UTC-4)
  and an event at 23:30 (UTC-5), which is also \<open>now\<close>, are on the same calendar day, the
  first of the month with an event.
\<close>

theorem isFirstOfMonth_iff_witness:
  "isFirstOfMonth
     (computeStreaks id New_York_2024 [Some 1730608200000, Some 1730694600000] 1730694600000)"
proof -
  let ?E = "event_times id [Some (1730608200000::int), Some 1730694600000]"
  have ev: "?E = {1730608200000, 1730694600000}"
    using event_times_map_Some [of "[1730608200000, 1730694600000]"] by simp
  have mono: "\<forall>a \<in> ?E. \<forall>b \<in> ?E. a \<le> b \<longrightarrow>
      localDay New_York_2024 a \<le> localDay New_York_2024 b"
    using new_york_example unfolding ev by simp
  have "\<exists>d \<in> ?E. inMonth New_York_2024 1730694600000 d \<and>
      (\<forall>d' \<in> ?E. inMonth New_York_2024 1730694600000 d' \<longrightarrow>
          localDay New_York_2024 d \<le> localDay New_York_2024 d') \<and>
      isSameDay New_York_2024 d 1730694600000"
    using new_york_example unfolding ev by simp
  with mono isFirstOfMonth_iff [of id New_York_2024
      "[Some 1730608200000, Some 1730694600000]" 1730694600000]
  show ?thesis by blast
qed

text \<open>
  Where the local calendar day goes back, the earliest event of the month need not be on
  the earliest event day. In St. John's on 2010-11-07 daylight-saving time ended at 00:01,
  which became 23:01 of 2010-11-06. An event at 00:00:30 (UTC-2:30) is on 2010-11-07; a
  later event at 23:30 (UTC-3:30) and \<open>now\<close> at 23:45 are on 2010-11-06. The earliest event
  day of the month is the day of \<open>now\<close>, and the handler, which tests the earliest event,
  returns false.
\<close>

theorem first_event_not_on_first_day:
  "civil_from_days (localDay St_Johns_2010 1289097030000) = (2010, 11, 7) \<and>
   civil_from_days (localDay St_Johns_2010 1289098800000) = (2010, 11, 6) \<and>
   civil_from_days (localDay St_Johns_2010 1289099700000) = (2010, 11, 6) \<and>
   inMonth St_Johns_2010 1289099700000 1289097030000 \<and>
   inMonth St_Johns_2010 1289099700000 1289098800000 \<and>
   localDay St_Johns_2010 1289098800000 < localDay St_Johns_2010 1289097030000 \<and>
   isSameDay St_Johns_2010 1289098800000 1289099700000 \<and>
   \<not> isFirstOfMonth
       (computeStreaks id St_Johns_2010 [Some 1289097030000, Some 1289098800000] 1289099700000)"
  by code_simp

section \<open>A single event\<close>

lemma same_day_example:
  "isSameDay UTC 1711933200000 1711936800000 \<and> civil_from_days (localDay UTC 1711933200000) = (2024, 4, 1)"
  by code_simp

text \<open>
  C8. A history with exactly one valid timestamp \<open>t\<close> gives currentStreak = 1 and
  longestStreak = 1 whatever \<open>now\<close> is, and isFirstOfMonth is true when the calendar day of
  \<open>t\<close> is the calendar day of \<open>now\<close> (it is true exactly then).
\<close>

theorem single_valid_event:
  assumes "filter (\<lambda>d. d \<noteq> None) (map newDate progressDocs) = [Some t]"
  shows "computeStreaks newDate tza progressDocs now =
     \<lparr> currentStreak = 1, longestStreak = 1, isFirstOfMonth = isSameDay tza t now \<rparr>"
proof -
  have dates: "parse_dates newDate progressDocs = [t]"
    unfolding parse_dates_def assms by simp
  have "compute_isFirstOfMonth tza [t] now = isSameDay tza t now"
    by (auto simp: compute_isFirstOfMonth_def isSameDay_def Let_def)
  then show ?thesis
    by (simp add: computeStreaks_def dates compute_currentStreak_def compute_longestStreak_def
        longestStreak_loop_def)
qed

theorem single_valid_event_witness:
  "filter (\<lambda>d. d \<noteq> None) (map id [None, Some (1711933200000::int)]) = [Some 1711933200000] \<and>
   computeStreaks id UTC [None, Some 1711933200000] 1711936800000 =
     \<lparr> currentStreak = 1, longestStreak = 1, isFirstOfMonth = True \<rparr>"
proof -
  have h: "filter (\<lambda>d. d \<noteq> None) (map id [None, Some (1711933200000::int)]) = [Some 1711933200000]"
    by simp
  from single_valid_event [OF h, of UTC 1711936800000] same_day_example h
  show ?thesis by (simp only: simp_thms)
qed

section \<open>Consecutive calendar days less than half a day apart\<close>

text \<open>
  With one event per day at a common time of day the scenarios of the longest streak come
  out as expected: events on 2024-03-01, 02, 03, 08, 09, 10 at midnight UTC, and events on
  2024-03-03, 04, 05.
\<close>

lemma broken_streak_example:
  "computeStreaks id UTC [Some 1709251200000, Some 1709337600000, Some 1709424000000,
       Some 1709856000000, Some 1709942400000, Some 1710028800000] 1710028800000 =
     \<lparr> currentStreak = 3, longestStreak = 3, isFirstOfMonth = False \<rparr>"
  by code_simp

lemma consecutive_run_example:
  "computeStreaks id UTC [Some 1709424000000, Some 1709510400000, Some 1709596800000]
       1709596800000 =
     \<lparr> currentStreak = 3, longestStreak = 3, isFirstOfMonth = False \<rparr>"
  by code_simp

text \<open>
  C5. The longest streak is claimed to be the greatest length of a run of consecutive
  calendar days, the run that ends at the last element included. The final maximum is
  there, but the handler takes rounded differences of timestamps for differences of days.
  Events at 23:00 UTC on 2024-03-03, 01:00 on 2024-03-04 and 01:00 on 2024-03-05 lie on
  three consecutive calendar days; the first two are two hours apart, their difference
  rounds to 0 and the branch for a same-day entry is taken, so that with
  \<open>now\<close> = 2024-03-05 the handler returns currentStreak = 2 and longestStreak = 2, not 3.
\<close>

theorem consecutive_days_short_gap:
  "civil_from_days (localDay UTC 1709506800000) = (2024, 3, 3) \<and>
   civil_from_days (localDay UTC 1709514000000) = (2024, 3, 4) \<and>
   civil_from_days (localDay UTC 1709600400000) = (2024, 3, 5) \<and>
   civil_from_days (localDay UTC 1709596800000) = (2024, 3, 5) \<and>
   localDay UTC 1709506800000 = 19785 \<and>
   localDay UTC 1709514000000 = 19786 \<and>
   localDay UTC 1709600400000 = 19787 \<and>
   Math_round_div (1709514000000 - 1709506800000) msPerDay = 0 \<and>
   Math_round_div (1709600400000 - 1709514000000) msPerDay = 1 \<and>
   computeStreaks id UTC [Some 1709506800000, Some 1709514000000, Some 1709600400000]
       1709596800000 =
     \<lparr> currentStreak = 2, longestStreak = 2, isFirstOfMonth = False \<rparr>"
  by code_simp

section \<open>Several events on one calendar day\<close>

text \<open>
  C1. Three events on one calendar day are claimed to give the result of a single event on
  that day. The handler compares rounded differences of timestamps, not calendar days:
  events at 00:00, 12:00 and 23:59:59.999 UTC of 2024-03-01 give a streak of 2, where one
  event gives 1.
\<close>

theorem same_day_events_extend_streak:
  "civil_from_days (localDay UTC 1709251200000) = (2024, 3, 1) \<and>
   civil_from_days (localDay UTC 1709294400000) = (2024, 3, 1) \<and>
   civil_from_days (localDay UTC 1709337599999) = (2024, 3, 1) \<and>
   computeStreaks id UTC [Some 1709251200000, Some 1709294400000, Some 1709337599999] 1709251200000 =
     \<lparr> currentStreak = 2, longestStreak = 2, isFirstOfMonth = True \<rparr> \<and>
   computeStreaks id UTC [Some 1709251200000] 1709251200000 =
     \<lparr> currentStreak = 1, longestStreak = 1, isFirstOfMonth = True \<rparr>"
  by code_simp

end
